theory Spec2Isabelle
  imports
    Main
    "HOL-Library.Word"
    "HOL-Library.AList"
    "HOL-Library.Char_ord"
    "HOL-Library.List_Lexorder"
    "HOL-Library.Multiset"
begin

section \<open>The image-drop server: upload validation and per-user history\<close>

text \<open>
  The development embeds the two request handlers of \<^verbatim>\<open>src/server/index.ts\<close>,
  \<^verbatim>\<open>POST /api/upload-image\<close> and \<^verbatim>\<open>GET /api/my-images\<close>, together with the four
  magic-number predicates they use. A handler is a function from the caller's context,
  the request, the behaviour of the external services and the contents of the key-value
  store to the response, the list of external calls made, and the new store contents.
  The body parsers mounted in front of the router belong to express and are not
  modelled: a handler starts from the parsed request.

  Strings are sequences of 8-bit code units, ordered by code unit as JavaScript orders
  strings; a \<^verbatim>\<open>Buffer\<close> is a list of bytes.
\<close>

subsection \<open>Magic numbers\<close>

type_synonym Buffer = "8 word list"

text \<open>
  Each predicate tests the length first, so no index is read out of range: the
  conjunction is false on a short buffer, as the short-circuit \<^verbatim>\<open>&&\<close> makes it.
\<close>

definition isPng :: "Buffer \<Rightarrow> bool" where
  "isPng buf \<longleftrightarrow>
     length buf \<ge> 8 \<and>
     buf ! 0 = 0x89 \<and>
     buf ! 1 = 0x50 \<and>
     buf ! 2 = 0x4e \<and>
     buf ! 3 = 0x47 \<and>
     buf ! 4 = 0x0d \<and>
     buf ! 5 = 0x0a \<and>
     buf ! 6 = 0x1a \<and>
     buf ! 7 = 0x0a"

definition isJpeg :: "Buffer \<Rightarrow> bool" where
  "isJpeg buf \<longleftrightarrow>
     length buf \<ge> 4 \<and>
     buf ! 0 = 0xff \<and>
     buf ! 1 = 0xd8 \<and>
     buf ! (length buf - 2) = 0xff \<and>
     buf ! (length buf - 1) = 0xd9"

definition isGif :: "Buffer \<Rightarrow> bool" where
  "isGif buf \<longleftrightarrow>
     length buf \<ge> 6 \<and>
     buf ! 0 = 0x47 \<and>
     buf ! 1 = 0x49 \<and>
     buf ! 2 = 0x46 \<and>
     buf ! 3 = 0x38 \<and>
     (buf ! 4 = 0x37 \<or> buf ! 4 = 0x39) \<and>
     buf ! 5 = 0x61"

definition isWebp :: "Buffer \<Rightarrow> bool" where
  "isWebp buf \<longleftrightarrow>
     length buf \<ge> 12 \<and>
     buf ! 0 = 0x52 \<and>
     buf ! 1 = 0x49 \<and>
     buf ! 2 = 0x46 \<and>
     buf ! 3 = 0x46 \<and>
     buf ! 8 = 0x57 \<and>
     buf ! 9 = 0x45 \<and>
     buf ! 10 = 0x42 \<and>
     buf ! 11 = 0x50"

definition validByMagic :: "string \<Rightarrow> Buffer \<Rightarrow> bool" where
  "validByMagic contentType body \<longleftrightarrow>
     (contentType = ''image/png'' \<and> isPng body) \<or>
     (contentType = ''image/jpeg'' \<and> isJpeg body) \<or>
     (contentType = ''image/gif'' \<and> isGif body) \<or>
     (contentType = ''image/webp'' \<and> isWebp body)"

text \<open>The four formats and the MIME string of each.\<close>

datatype Format = PNG | JPEG | GIF | WEBP

fun mime :: "Format \<Rightarrow> string" where
  "mime PNG = ''image/png''"
| "mime JPEG = ''image/jpeg''"
| "mime GIF = ''image/gif''"
| "mime WEBP = ''image/webp''"

definition pngSignature :: Buffer where
  "pngSignature = [0x89, 0x50, 0x4e, 0x47, 0x0d, 0x0a, 0x1a, 0x0a]"

text \<open>
  The magic bytes of each format as the specification lists them, byte by byte and
  without reference to the predicates above: the eight bytes of the PNG signature; FF D8
  first and FF D9 last for JPEG; \<^verbatim>\<open>GIF8\<close>, then \<^verbatim>\<open>7\<close> or \<^verbatim>\<open>9\<close>, then \<^verbatim>\<open>a\<close> for GIF;
  \<^verbatim>\<open>RIFF\<close> in bytes 0 to 3 and \<^verbatim>\<open>WEBP\<close> in bytes 8 to 11 for WEBP.
\<close>

fun carriesMagic :: "Format \<Rightarrow> Buffer \<Rightarrow> bool" where
  "carriesMagic PNG buf \<longleftrightarrow>
     take 8 buf = [0x89, 0x50, 0x4e, 0x47, 0x0d, 0x0a, 0x1a, 0x0a]"
| "carriesMagic JPEG buf \<longleftrightarrow>
     take 2 buf = [0xff, 0xd8] \<and> drop (length buf - 2) buf = [0xff, 0xd9]"
| "carriesMagic GIF buf \<longleftrightarrow>
     take 4 buf = [0x47, 0x49, 0x46, 0x38] \<and>
     (take 1 (drop 4 buf) = [0x37] \<or> take 1 (drop 4 buf) = [0x39]) \<and>
     take 1 (drop 5 buf) = [0x61]"
| "carriesMagic WEBP buf \<longleftrightarrow>
     take 4 buf = [0x52, 0x49, 0x46, 0x46] \<and>
     take 4 (drop 8 buf) = [0x57, 0x45, 0x42, 0x50]"

subsection \<open>Requests, responses and the external services\<close>

record Context =
  userId :: "string option"

text \<open>
  A header of \<^verbatim>\<open>req.headers\<close> has type \<^verbatim>\<open>string | string[] | undefined\<close>;
  \<^verbatim>\<open>req.body\<close> is a \<^verbatim>\<open>Buffer\<close> when the raw parser ran, and otherwise undefined
  or a value that is no buffer.
\<close>

datatype Header = Absent | Single string | Multiple "string list"

text \<open>
  What Node's HTTP parser delivers under \<^verbatim>\<open>req.headers['x-file-name']\<close> for the
  \<^verbatim>\<open>X-File-Name\<close> lines of a request: nothing when there is none, and otherwise one
  string, the values of repeated lines joined by a comma and a space. (An array is
  delivered for \<^verbatim>\<open>set-cookie\<close> only.)
\<close>

fun joinValues :: "string list \<Rightarrow> string" where
  "joinValues [] = []"
| "joinValues [v] = v"
| "joinValues (v # w # vs) = v @ '', '' @ joinValues (w # vs)"

fun received :: "string list \<Rightarrow> Header" where
  "received [] = Absent"
| "received (v # vs) = Single (joinValues (v # vs))"

datatype Body = NoBody | NotBuffer | Buf Buffer

record Request =
  contentType :: "string option"
  xFileName :: Header
  body :: Body

datatype MediaType = MediaImage | MediaGif | MediaVideo

fun mediaTypeName :: "MediaType \<Rightarrow> string" where
  "mediaTypeName MediaImage = ''image''"
| "mediaTypeName MediaGif = ''gif''"
| "mediaTypeName MediaVideo = ''video''"

record MediaAsset =
  assetMediaId :: string
  assetMediaUrl :: string

record UploadedAsset =
  mediaType :: MediaType
  mediaUrl :: string
  mediaId :: string
  date :: string

record UploadResponse =
  mimeType :: string
  bytes :: nat
  fileName :: "string option"

text \<open>
  A response is a status code and a JSON body: either the error object
  \<^verbatim>\<open>{status: 'error', message}\<close> or the endpoint's payload. \<^verbatim>\<open>res.json\<close> without
  \<^verbatim>\<open>res.status\<close> answers 200.
\<close>

datatype 'a Reply = Failure string | Payload 'a

type_synonym 'a Response = "nat \<times> 'a Reply"

text \<open>The calls a handler makes to the media store and to the key-value store.\<close>

datatype Call =
    MediaUpload MediaType string
  | HSet string string string
  | HGetAll string

text \<open>
  What the outside world does during one request: the media store answers an upload with
  an asset or throws (\<open>None\<close>), a key-value call succeeds or throws, and the clock gives
  the text of \<^verbatim>\<open>new Date().toISOString()\<close>.
\<close>

record Env =
  mediaUpload :: "MediaType \<Rightarrow> string \<Rightarrow> MediaAsset option"
  hSetThrows :: bool
  hGetAllThrows :: bool
  now :: string

text \<open>
  The key-value store: under each key a hash, kept as the list of its fields in the
  order in which a read enumerates them. Writing a field replaces its value in place or
  adds the field.
\<close>

type_synonym Redis = "string \<Rightarrow> (string \<times> string) list"

definition hSet :: "Redis \<Rightarrow> string \<Rightarrow> string \<Rightarrow> string \<Rightarrow> Redis" where
  "hSet redis key field val = redis(key := AList.update field val (redis key))"

subsection \<open>Encoding: base64 and \<^verbatim>\<open>JSON.stringify\<close>\<close>

definition base64Alphabet :: string where
  "base64Alphabet = ''ABCDEFGHIJKLMNOPQRSTUVWXYZabcdefghijklmnopqrstuvwxyz0123456789+/''"

definition b64 :: "nat \<Rightarrow> char" where
  "b64 n = base64Alphabet ! (n mod 64)"

fun base64 :: "Buffer \<Rightarrow> string" where
  "base64 (a # b # c # rest) =
     [b64 (unat a div 4),
      b64 ((unat a mod 4) * 16 + unat b div 16),
      b64 ((unat b mod 16) * 4 + unat c div 64),
      b64 (unat c mod 64)] @ base64 rest"
| "base64 [a, b] =
     [b64 (unat a div 4),
      b64 ((unat a mod 4) * 16 + unat b div 16),
      b64 ((unat b mod 16) * 4),
      CHR ''='']"
| "base64 [a] =
     [b64 (unat a div 4),
      b64 ((unat a mod 4) * 16),
      CHR ''='',
      CHR ''='']"
| "base64 [] = []"

definition dataUrl :: "string \<Rightarrow> Buffer \<Rightarrow> string" where
  "dataUrl ct buf = ''data:'' @ ct @ '';base64,'' @ base64 buf"

definition hexDigit :: "nat \<Rightarrow> char" where
  "hexDigit n = ''0123456789abcdef'' ! (n mod 16)"

text \<open>The escapes of \<^verbatim>\<open>JSON.stringify\<close> for one code unit of a string.\<close>

definition quoteChar :: "char \<Rightarrow> string" where
  "quoteChar c =
     (let n = (of_char c :: nat) in
      if n = 0x08 then [CHR 0x5c, CHR ''b'']
      else if n = 0x09 then [CHR 0x5c, CHR ''t'']
      else if n = 0x0a then [CHR 0x5c, CHR ''n'']
      else if n = 0x0c then [CHR 0x5c, CHR ''f'']
      else if n = 0x0d then [CHR 0x5c, CHR ''r'']
      else if n = 0x22 then [CHR 0x5c, CHR 0x22]
      else if n = 0x5c then [CHR 0x5c, CHR 0x5c]
      else if n < 0x20 then [CHR 0x5c, CHR ''u'', CHR ''0'', CHR ''0'', hexDigit (n div 16), hexDigit n]
      else [c])"

definition quote :: "string \<Rightarrow> string" where
  "quote s = [CHR 0x22] @ concat (map quoteChar s) @ [CHR 0x22]"

definition stringifyAsset :: "UploadedAsset \<Rightarrow> string" where
  "stringifyAsset a =
     ''{'' @ quote ''mediaType'' @ '':'' @ quote (mediaTypeName (mediaType a)) @
     '','' @ quote ''mediaUrl'' @ '':'' @ quote (mediaUrl a) @
     '','' @ quote ''mediaId'' @ '':'' @ quote (mediaId a) @
     '','' @ quote ''date'' @ '':'' @ quote (date a) @ ''}''"

subsection \<open>\<^verbatim>\<open>POST /api/upload-image\<close>\<close>

text \<open>
  \<^verbatim>\<open>Array.isArray(h) ? h[0] : h\<close>: the first element of an array (undefined when
  it is empty), the string itself otherwise.
\<close>

fun headerValue :: "Header \<Rightarrow> string option" where
  "headerValue Absent = None"
| "headerValue (Single s) = Some s"
| "headerValue (Multiple []) = None"
| "headerValue (Multiple (s # ss)) = Some s"

text \<open>A string or undefined is truthy when it is a non-empty string.\<close>

fun truthyString :: "string option \<Rightarrow> bool" where
  "truthyString None = False"
| "truthyString (Some s) = (s \<noteq> [])"

definition uploadFailed :: "UploadResponse Response" where
  "uploadFailed = (400, Failure ''Failed to process image upload'')"

definition assetData :: "MediaType \<Rightarrow> MediaAsset \<Rightarrow> string \<Rightarrow> UploadedAsset" where
  "assetData mtype asset stamp =
     \<lparr>mediaType = mtype, mediaUrl = assetMediaUrl asset,
      mediaId = assetMediaId asset, date = stamp\<rparr>"

text \<open>
  The handler. The identity check stands before the \<^verbatim>\<open>try\<close>; every later throw (of
  the media store, of the key-value write) lands in the one \<^verbatim>\<open>catch\<close>, which answers
  400. The store is changed only by a write that returned.
\<close>

definition upload_image ::
  "Env \<Rightarrow> Context \<Rightarrow> Request \<Rightarrow> Redis \<Rightarrow> UploadResponse Response \<times> Call list \<times> Redis" where
  "upload_image env ctx req redis =
     (if \<not> truthyString (userId ctx) then ((401, Failure ''Unauthorized''), [], redis)
      else
        let ct = contentType req in
        if ct \<noteq> Some ''image/png'' \<and> ct \<noteq> Some ''image/jpeg'' \<and>
           ct \<noteq> Some ''image/gif'' \<and> ct \<noteq> Some ''image/webp''
        then ((415, Failure ''Unsupported Content-Type''), [], redis)
        else
          case (userId ctx, ct, body req) of
            (Some uid, Some ctype, Buf buf) \<Rightarrow>
              if length buf = 0
              then ((400, Failure ''Empty or invalid request body''), [], redis)
              else if \<not> validByMagic ctype buf
              then ((415, Failure ''Invalid image format''), [], redis)
              else
                let name = headerValue (xFileName req);
                    baseResponse = \<lparr>mimeType = ctype, bytes = length buf, fileName = None\<rparr>;
                    mtype = (if ctype = ''image/gif'' then MediaGif else MediaImage);
                    url = dataUrl ctype buf
                in (case mediaUpload env mtype url of
                      None \<Rightarrow> (uploadFailed, [MediaUpload mtype url], redis)
                    | Some asset \<Rightarrow>
                        let field = assetMediaUrl asset;
                            val = stringifyAsset (assetData mtype asset (now env));
                            calls = [MediaUpload mtype url, HSet uid field val]
                        in if hSetThrows env then (uploadFailed, calls, redis)
                           else
                             ((200, Payload (if truthyString name
                                             then baseResponse\<lparr>fileName := name\<rparr>
                                             else baseResponse)),
                              calls, hSet redis uid field val))
          | _ \<Rightarrow> ((400, Failure ''Empty or invalid request body''), [], redis))"

text \<open>
  \<^verbatim>\<open>!body || !Buffer.isBuffer(body) || body.length === 0\<close>, for stating the claims
  about empty bodies.
\<close>

fun emptyOrInvalid :: "Body \<Rightarrow> bool" where
  "emptyOrInvalid (Buf buf) = (length buf = 0)"
| "emptyOrInvalid NoBody = True"
| "emptyOrInvalid NotBuffer = True"

subsection \<open>JavaScript values read back from the store\<close>

text \<open>
  \<^verbatim>\<open>JSON.parse(raw) as UploadedAsset\<close> checks nothing: whatever JSON value the stored
  text denotes is kept. The values are therefore modelled as JSON values, and the
  operations the handler applies to them (truthiness, the property \<^verbatim>\<open>date\<close>, the
  operator \<^verbatim>\<open><\<close>) follow ECMAScript. Numbers are IEEE doubles; their type \<open>'n\<close> and
  the operations on them are parameters, as is \<^verbatim>\<open>JSON.parse\<close> itself (\<open>None\<close> when it
  throws a SyntaxError).
\<close>

datatype 'n JSON =
    JNull
  | JBool bool
  | JNumber 'n
  | JString string
  | JArray "'n JSON list"
  | JObject "(string \<times> 'n JSON) list"

datatype 'n Prim = PUndefined | PNull | PBool bool | PNumber 'n | PString string

record 'n JS =
  parse :: "string \<Rightarrow> 'n JSON option"
  numberTruthy :: "'n \<Rightarrow> bool"
  numberToString :: "'n \<Rightarrow> string"
  numericLess :: "'n Prim \<Rightarrow> 'n Prim \<Rightarrow> bool"

text \<open>\<^verbatim>\<open>Boolean(a)\<close>.\<close>

fun truthy :: "'n JS \<Rightarrow> 'n JSON \<Rightarrow> bool" where
  "truthy js JNull = False"
| "truthy js (JBool b) = b"
| "truthy js (JNumber n) = numberTruthy js n"
| "truthy js (JString s) = (s \<noteq> [])"
| "truthy js (JArray xs) = True"
| "truthy js (JObject kvs) = True"

text \<open>
  \<^verbatim>\<open>a.date\<close> on a value that is not null: the own property of an object, undefined
  (\<open>None\<close>) on anything else, since no prototype has a property of that name.
\<close>

fun dateOf :: "'n JSON \<Rightarrow> 'n JSON option" where
  "dateOf (JObject kvs) = map_of kvs ''date''"
| "dateOf j = None"

text \<open>
  Conversion of an object to a primitive calls \<^verbatim>\<open>valueOf\<close> and \<^verbatim>\<open>toString\<close>. A parsed
  object inherits both from \<^verbatim>\<open>Object.prototype\<close> unless it has an own property of that
  name, which is then never callable and is skipped. The inherited \<^verbatim>\<open>valueOf\<close> returns
  the object itself, so the outcome rests on \<^verbatim>\<open>toString\<close>: the inherited one gives
  \<^verbatim>\<open>[object Object]\<close>, an own one leaves no method and the conversion throws a
  TypeError (\<open>None\<close>). An array is joined with commas, null elements as empty text.
\<close>

definition hasOwn :: "string \<Rightarrow> (string \<times> 'n JSON) list \<Rightarrow> bool" where
  "hasOwn key kvs \<longleftrightarrow> map_of kvs key \<noteq> None"

fun toString :: "'n JS \<Rightarrow> 'n JSON \<Rightarrow> string option"
  and join :: "'n JS \<Rightarrow> 'n JSON list \<Rightarrow> string option" where
  "toString js JNull = Some ''null''"
| "toString js (JBool b) = Some (if b then ''true'' else ''false'')"
| "toString js (JNumber n) = Some (numberToString js n)"
| "toString js (JString s) = Some s"
| "toString js (JArray xs) = join js xs"
| "toString js (JObject kvs) =
     (if hasOwn ''toString'' kvs then None else Some ''[object Object]'')"
| "join js [] = Some []"
| "join js (x # xs) =
     (case (if x = JNull then Some [] else toString js x) of
        None \<Rightarrow> None
      | Some s \<Rightarrow>
          if xs = [] then Some s
          else (case join js xs of None \<Rightarrow> None | Some t \<Rightarrow> Some (s @ '','' @ t)))"

fun toPrimitive :: "'n JS \<Rightarrow> 'n JSON option \<Rightarrow> 'n Prim option" where
  "toPrimitive js None = Some PUndefined"
| "toPrimitive js (Some JNull) = Some PNull"
| "toPrimitive js (Some (JBool b)) = Some (PBool b)"
| "toPrimitive js (Some (JNumber n)) = Some (PNumber n)"
| "toPrimitive js (Some (JString s)) = Some (PString s)"
| "toPrimitive js (Some (JArray xs)) = map_option PString (join js xs)"
| "toPrimitive js (Some (JObject kvs)) =
     (if hasOwn ''toString'' kvs then None else Some (PString ''[object Object]''))"

text \<open>
  \<^verbatim>\<open>x < y\<close> (the operation IsLessThan of ECMAScript): both operands become
  primitives; two strings are compared by code units, anything else numerically.
\<close>

definition isLessThan :: "'n JS \<Rightarrow> 'n JSON option \<Rightarrow> 'n JSON option \<Rightarrow> bool option" where
  "isLessThan js x y =
     (case toPrimitive js x of
        None \<Rightarrow> None
      | Some px \<Rightarrow>
          (case toPrimitive js y of
             None \<Rightarrow> None
           | Some py \<Rightarrow>
               (case (px, py) of
                  (PString s, PString t) \<Rightarrow> Some (s < t)
                | _ \<Rightarrow> Some (numericLess js px py))))"

text \<open>
  The comparator \<^verbatim>\<open>(a, b) => (a.date < b.date ? 1 : -1)\<close>. Reading a property of
  null throws.
\<close>

definition byDateDesc :: "'n JS \<Rightarrow> 'n JSON \<Rightarrow> 'n JSON \<Rightarrow> int option" where
  "byDateDesc js a b =
     (if a = JNull \<or> b = JNull then None
      else map_option (\<lambda>less. if less then 1 else - 1) (isLessThan js (dateOf a) (dateOf b)))"

text \<open>
  \<^verbatim>\<open>Array.prototype.sort\<close> with a comparator, as an insertion sort: an element moves
  behind the elements it compares greater than. A throw of the comparator ends the sort.
  ECMAScript fixes the result of a sort only up to the order of elements that the
  comparator does not separate; the theorems below do not depend on that order.
\<close>

fun insertBy :: "('a \<Rightarrow> 'a \<Rightarrow> int option) \<Rightarrow> 'a \<Rightarrow> 'a list \<Rightarrow> 'a list option" where
  "insertBy cmp x [] = Some [x]"
| "insertBy cmp x (y # ys) =
     (case cmp x y of
        None \<Rightarrow> None
      | Some order \<Rightarrow>
          if order > 0 then map_option ((#) y) (insertBy cmp x ys)
          else Some (x # y # ys))"

fun sortBy :: "('a \<Rightarrow> 'a \<Rightarrow> int option) \<Rightarrow> 'a list \<Rightarrow> 'a list option" where
  "sortBy cmp [] = Some []"
| "sortBy cmp (x # xs) =
     (case sortBy cmp xs of None \<Rightarrow> None | Some ys \<Rightarrow> insertBy cmp x ys)"

subsection \<open>\<^verbatim>\<open>GET /api/my-images\<close>\<close>

text \<open>The \<^verbatim>\<open>try\<close> around \<^verbatim>\<open>JSON.parse\<close>: a value that does not parse becomes null.\<close>

definition decode :: "'n JS \<Rightarrow> string \<Rightarrow> 'n JSON" where
  "decode js raw = (case parse js raw of None \<Rightarrow> JNull | Some a \<Rightarrow> a)"

definition my_images ::
  "'n JS \<Rightarrow> Env \<Rightarrow> Context \<Rightarrow> Redis \<Rightarrow> 'n JSON list Response \<times> Call list" where
  "my_images js env ctx redis =
     (case userId ctx of
        None \<Rightarrow> ((401, Failure ''Unauthorized''), [])
      | Some uid \<Rightarrow>
          if uid = [] then ((401, Failure ''Unauthorized''), [])
          else if hGetAllThrows env
          then ((400, Failure ''Failed to fetch uploads''), [HGetAll uid])
          else
            let entries = redis uid;
                kept = filter (truthy js) (map (decode js) (map snd entries))
            in (case sortBy (byDateDesc js) kept of
                  None \<Rightarrow> ((400, Failure ''Failed to fetch uploads''), [HGetAll uid])
                | Some assets \<Rightarrow> ((200, Payload assets), [HGetAll uid])))"

subsection \<open>Notions for the history claims\<close>

text \<open>
  The values of a hash that the listing keeps, in the claim's words: those whose text
  parses, to a value that is not falsy.
\<close>

definition survivors :: "'n JS \<Rightarrow> (string \<times> string) list \<Rightarrow> 'n JSON list" where
  "survivors js entries =
     concat (map (\<lambda>(field, raw). case parse js raw of
                                    None \<Rightarrow> []
                                  | Some a \<Rightarrow> if truthy js a then [a] else []) entries)"

text \<open>
  The value \<^verbatim>\<open>JSON.parse\<close> gives for the text \<^verbatim>\<open>JSON.stringify\<close> made of a record: an
  object with the four properties, each a string.
\<close>

definition assetJSON :: "UploadedAsset \<Rightarrow> 'n JSON" where
  "assetJSON a =
     JObject [(''mediaType'', JString (mediaTypeName (mediaType a))),
              (''mediaUrl'', JString (mediaUrl a)),
              (''mediaId'', JString (mediaId a)),
              (''date'', JString (date a))]"

text \<open>
  The date of a value when it is a string, the order "not older than" on such dates,
  and the hashes in which every kept value has one.
\<close>

definition dateText :: "'n JSON \<Rightarrow> string option" where
  "dateText a = (case dateOf a of Some (JString s) \<Rightarrow> Some s | _ \<Rightarrow> None)"

definition notOlder :: "'n JSON \<Rightarrow> 'n JSON \<Rightarrow> bool" where
  "notOlder a b = (case (dateText a, dateText b) of (Some s, Some t) \<Rightarrow> t \<le> s | _ \<Rightarrow> False)"

definition datedEntries :: "'n JS \<Rightarrow> (string \<times> string) list \<Rightarrow> bool" where
  "datedEntries js entries = list_all (\<lambda>a. dateText a \<noteq> None) (survivors js entries)"

text \<open>A kept value whose date converts to a primitive, so that comparing it cannot throw.\<close>

definition comparable :: "'n JS \<Rightarrow> 'n JSON \<Rightarrow> bool" where
  "comparable js a \<longleftrightarrow> toPrimitive js (dateOf a) \<noteq> None"

subsection \<open>Sample data\<close>

text \<open>Concrete requests, services and store contents at which the theorems are evaluated.\<close>

definition noEntries :: Redis where
  "noEntries key = []"

definition mediaStoreReturns :: "MediaAsset \<Rightarrow> MediaType \<Rightarrow> string \<Rightarrow> MediaAsset option" where
  "mediaStoreReturns asset mtype url = Some asset"

definition samplePng :: Buffer where
  "samplePng = pngSignature @ [0x00, 0x01]"

definition sampleEnv :: Env where
  "sampleEnv =
     \<lparr>mediaUpload =
        mediaStoreReturns \<lparr>assetMediaId = ''m1'', assetMediaUrl = ''https://i.redd.it/a1.png''\<rparr>,
      hSetThrows = False, hGetAllThrows = False, now = ''2024-05-01T10:00:00.000Z''\<rparr>"

definition alice :: Context where
  "alice = \<lparr>userId = Some ''t2_alice''\<rparr>"

definition pngRequest :: Request where
  "pngRequest =
     \<lparr>contentType = Some ''image/png'', xFileName = Single ''cat.png'', body = Buf samplePng\<rparr>"

definition sampleGif :: Buffer where
  "sampleGif = [0x47, 0x49, 0x46, 0x38, 0x39, 0x61, 0x00]"

definition gifRequest :: Request where
  "gifRequest = \<lparr>contentType = Some ''image/gif'', xFileName = Absent, body = Buf sampleGif\<rparr>"

definition sampleJpeg :: Buffer where
  "sampleJpeg = [0xff, 0xd8, 0xff, 0xe0, 0x00, 0xff, 0xd9]"

definition sampleWebp :: Buffer where
  "sampleWebp = [0x52, 0x49, 0x46, 0x46, 0x1a, 0x00, 0x00, 0x00, 0x57, 0x45, 0x42, 0x50, 0x56, 0x50]"

definition declared :: "Format \<Rightarrow> Buffer \<Rightarrow> Request" where
  "declared g buf = \<lparr>contentType = Some (mime g), xFileName = Absent, body = Buf buf\<rparr>"

definition anonymous :: Context where
  "anonymous = \<lparr>userId = None\<rparr>"

definition firstRecord :: UploadedAsset where
  "firstRecord =
     \<lparr>mediaType = MediaImage, mediaUrl = ''https://i.redd.it/a1.png'', mediaId = ''m1'',
      date = ''2024-05-01T10:00:00.000Z''\<rparr>"

definition secondRecord :: UploadedAsset where
  "secondRecord =
     \<lparr>mediaType = MediaGif, mediaUrl = ''https://i.redd.it/a2.gif'', mediaId = ''m2'',
      date = ''2024-05-02T08:30:00.000Z''\<rparr>"

definition laterEnv :: Env where
  "laterEnv =
     \<lparr>mediaUpload =
        mediaStoreReturns \<lparr>assetMediaId = ''m2'', assetMediaUrl = ''https://i.redd.it/a2.gif''\<rparr>,
      hSetThrows = False, hGetAllThrows = False, now = ''2024-05-02T08:30:00.000Z''\<rparr>"

text \<open>
  A small instance of the JavaScript parameters over the natural numbers, with
  \<^verbatim>\<open>JSON.parse\<close> given on the texts that the samples store: two records as written by
  the upload handler, an empty object, a number, null, and an object whose \<^verbatim>\<open>date\<close>
  has an own property \<^verbatim>\<open>toString\<close>. Every other text is taken not to parse.
\<close>

definition badText :: string where
  \<open>badText = ''{"date":{"toString":1}}''\<close>

definition sampleParse :: "string \<Rightarrow> nat JSON option" where
  "sampleParse =
     map_of [(stringifyAsset firstRecord, assetJSON firstRecord),
             (stringifyAsset secondRecord, assetJSON secondRecord),
             (badText, JObject [(''date'', JObject [(''toString'', JNumber 1)])]),
             (''{}'', JObject []),
             (''42'', JNumber 42),
             (''null'', JNull)]"

definition positive :: "nat \<Rightarrow> bool" where
  "positive n \<longleftrightarrow> 0 < n"

fun decimal :: "nat \<Rightarrow> string" where
  "decimal n =
     (if n < 10 then [''0123456789'' ! n]
      else decimal (n div 10) @ [''0123456789'' ! (n mod 10)])"

fun toNumber :: "nat Prim \<Rightarrow> nat option" where
  "toNumber PUndefined = None"
| "toNumber PNull = Some 0"
| "toNumber (PBool b) = Some (if b then 1 else 0)"
| "toNumber (PNumber n) = Some n"
| "toNumber (PString s) = (if s = [] then Some 0 else None)"

definition sampleLess :: "nat Prim \<Rightarrow> nat Prim \<Rightarrow> bool" where
  "sampleLess p q = (case (toNumber p, toNumber q) of (Some a, Some b) \<Rightarrow> a < b | _ \<Rightarrow> False)"

definition sampleJS :: "nat JS" where
  "sampleJS = \<lparr>parse = sampleParse, numberTruthy = positive, numberToString = decimal,
               numericLess = sampleLess\<rparr>"

text \<open>
  Store contents: the hash of the sample caller after two uploads, the same with three
  stray fields, and the same with the field whose date cannot be compared.
\<close>

definition twoUploads :: Redis where
  "twoUploads =
     hSet (hSet noEntries ''t2_alice'' ''https://i.redd.it/a1.png'' (stringifyAsset firstRecord))
       ''t2_alice'' ''https://i.redd.it/a2.gif'' (stringifyAsset secondRecord)"

definition withJunk :: Redis where
  "withJunk =
     hSet (hSet (hSet twoUploads ''t2_alice'' ''k3'' ''not json'') ''t2_alice'' ''k4'' ''null'')
       ''t2_alice'' ''k5'' ''{}''"

definition poisoned :: Redis where
  "poisoned = hSet twoUploads ''t2_alice'' ''https://i.redd.it/zz.png'' badText"

section \<open>The format sniffer\<close>

lemma take2: "take 2 buf = [a, b] \<longleftrightarrow> length buf \<ge> 2 \<and> buf ! 0 = a \<and> buf ! 1 = b"
  by (cases buf; cases "tl buf") auto

lemma last2:
  "drop (length buf - 2) buf = [c, d] \<longleftrightarrow>
     length buf \<ge> 2 \<and> buf ! (length buf - 2) = c \<and> buf ! (length buf - 1) = d"
proof -
  have "drop (length buf - 2) buf = [c, d] \<longleftrightarrow> take 2 (rev buf) = [d, c]"
    by (simp add: take_rev rev_swap)
  also have "\<dots> \<longleftrightarrow> length buf \<ge> 2 \<and> rev buf ! 0 = d \<and> rev buf ! 1 = c"
    by (simp add: take2)
  also have "\<dots> \<longleftrightarrow>
      length buf \<ge> 2 \<and> buf ! (length buf - 2) = c \<and> buf ! (length buf - 1) = d"
  proof (cases "length buf \<ge> 2")
    case True
    then have "0 < length buf" "1 < length buf" by linarith+
    then have "rev buf ! 0 = buf ! (length buf - 1)" "rev buf ! 1 = buf ! (length buf - 2)"
      by (simp_all only: rev_nth) (simp_all add: numeral_2_eq_2)
    then show ?thesis by auto
  next
    case False
    then show ?thesis by simp
  qed
  finally show ?thesis .
qed

text \<open>A header and a trailer that overlap cannot both be right, so four bytes are there.\<close>

lemma jpeg_short:
  assumes "length buf \<ge> 2" "buf ! 0 = (0xff::8 word)" "buf ! 1 = 0xd8"
    "buf ! (length buf - 2) = 0xff" "buf ! (length buf - 1) = 0xd9"
  shows "length buf \<ge> 4"
proof (rule ccontr)
  assume "\<not> length buf \<ge> 4"
  with assms(1) consider "length buf = 2" | "length buf = 3" by linarith
  then show False
  proof cases
    case 1 with assms show False by simp
  next
    case 2 with assms show False by simp
  qed
qed

lemma isPng_append: "isPng (pngSignature @ r)"
  by (simp add: isPng_def pngSignature_def)

lemma isPng_take8: "isPng buf \<longleftrightarrow> take 8 buf = pngSignature"
proof
  assume "take 8 buf = pngSignature"
  then have "buf = pngSignature @ drop 8 buf" by (metis append_take_drop_id)
  then obtain r where "buf = pngSignature @ r" ..
  then show "isPng buf" by (simp add: isPng_append)
next
  assume "isPng buf"
  then show "take 8 buf = pngSignature"
    unfolding isPng_def pngSignature_def
    by (auto simp: list_eq_iff_nth_eq less_Suc_eq eval_nat_numeral)
qed

text \<open>
  The byte rules of the specification and the predicates of the code agree, format by
  format.
\<close>

lemma slice_nth:
  assumes "take n (drop k buf) = xs" and "length xs = n" and "i < n"
  shows "k + n \<le> length buf \<and> buf ! (k + i) = xs ! i"
proof -
  from assms(1,2) have len: "min (length buf - k) n = n"
    by (metis length_take length_drop)
  with assms(3) have le: "k + n \<le> length buf" by linarith
  from assms(1) have "take n (drop k buf) ! i = xs ! i" by simp
  with assms(3) le show ?thesis by simp
qed

lemma slice_eq:
  assumes "k + length xs \<le> length buf" and "\<forall>i < length xs. buf ! (k + i) = xs ! i"
  shows "take (length xs) (drop k buf) = xs"
  using assms by (auto simp: list_eq_iff_nth_eq)

lemma take1_drop: "take 1 (drop k buf) = [a] \<longleftrightarrow> k < length buf \<and> buf ! k = a"
proof
  assume "take 1 (drop k buf) = [a]"
  from slice_nth [OF this, of 0] show "k < length buf \<and> buf ! k = a" by simp
next
  assume "k < length buf \<and> buf ! k = a"
  then show "take 1 (drop k buf) = [a]"
    using slice_eq [of k "[a]" buf] by simp
qed

lemma take4_drop:
  "take 4 (drop k buf) = [a, b, c, d] \<longleftrightarrow>
     k + 4 \<le> length buf \<and> buf ! k = a \<and> buf ! (k + 1) = b \<and>
     buf ! (k + 2) = c \<and> buf ! (k + 3) = d"
proof
  assume t: "take 4 (drop k buf) = [a, b, c, d]"
  from slice_nth [OF t, of 0] slice_nth [OF t, of 1] slice_nth [OF t, of 2] slice_nth [OF t, of 3]
  show "k + 4 \<le> length buf \<and> buf ! k = a \<and> buf ! (k + 1) = b \<and>
     buf ! (k + 2) = c \<and> buf ! (k + 3) = d" by simp
next
  assume r: "k + 4 \<le> length buf \<and> buf ! k = a \<and> buf ! (k + 1) = b \<and>
     buf ! (k + 2) = c \<and> buf ! (k + 3) = d"
  have "\<forall>i < length [a, b, c, d]. buf ! (k + i) = [a, b, c, d] ! i"
  proof (intro allI impI)
    fix i assume "i < length [a, b, c, d]"
    then consider "i = 0" | "i = 1" | "i = 2" | "i = 3" by fastforce
    then show "buf ! (k + i) = [a, b, c, d] ! i" using r by cases simp_all
  qed
  with r show "take 4 (drop k buf) = [a, b, c, d]"
    using slice_eq [of k "[a, b, c, d]" buf] by (simp add: eval_nat_numeral)
qed

lemma carriesMagic_png: "carriesMagic PNG buf \<longleftrightarrow> isPng buf"
  using isPng_take8 [of buf] by (simp add: pngSignature_def)

lemma carriesMagic_jpeg: "carriesMagic JPEG buf \<longleftrightarrow> isJpeg buf"
  unfolding carriesMagic.simps isJpeg_def take2 last2
  using jpeg_short [of buf] by auto

lemma take4:
  "take 4 buf = [a, b, c, d] \<longleftrightarrow>
     4 \<le> length buf \<and> buf ! 0 = a \<and> buf ! 1 = b \<and> buf ! 2 = c \<and> buf ! 3 = d"
  using take4_drop [of 0 buf a b c d] by (simp add: numeral_2_eq_2)

lemma take4_drop8:
  "take 4 (drop 8 buf) = [a, b, c, d] \<longleftrightarrow>
     12 \<le> length buf \<and> buf ! 8 = a \<and> buf ! 9 = b \<and> buf ! 10 = c \<and> buf ! 11 = d"
  using take4_drop [of 8 buf a b c d] by simp

lemma carriesMagic_gif: "carriesMagic GIF buf \<longleftrightarrow> isGif buf"
  unfolding carriesMagic.simps isGif_def take1_drop take4 by auto

lemma carriesMagic_webp: "carriesMagic WEBP buf \<longleftrightarrow> isWebp buf"
  unfolding carriesMagic.simps isWebp_def take4 take4_drop8 by auto

lemma allowed_mime:
  "Some (mime g) \<noteq> Some ''image/png'' \<and> Some (mime g) \<noteq> Some ''image/jpeg'' \<and>
   Some (mime g) \<noteq> Some ''image/gif'' \<and> Some (mime g) \<noteq> Some ''image/webp'' \<longleftrightarrow> False"
  by (cases g) simp_all

text \<open>Under the MIME string of a format the sniffer tests that format's bytes.\<close>

lemma validByMagic_mime: "validByMagic (mime g) buf = carriesMagic g buf"
  by (cases g)
    (simp_all only: carriesMagic_png carriesMagic_jpeg carriesMagic_gif carriesMagic_webp,
     simp_all add: validByMagic_def)

lemma magic_nonempty: "carriesMagic f buf \<Longrightarrow> buf \<noteq> []"
  by (cases f) auto

text \<open>The four signatures differ in their first byte.\<close>

lemma magic_exclusive: "carriesMagic f buf \<Longrightarrow> carriesMagic g buf \<Longrightarrow> f = g"
  by (cases f; cases g)
    (simp_all only: carriesMagic_png carriesMagic_jpeg carriesMagic_gif carriesMagic_webp,
     auto simp: isPng_def isJpeg_def isGif_def isWebp_def)

text \<open>
  Claim C6. A payload declared as \<^verbatim>\<open>image/jpeg\<close> passes the sniffer exactly when its
  first two bytes are FF D8 and its last two bytes are FF D9; a right header with a
  wrong trailer is therefore rejected.
\<close>

theorem jpeg_header_and_trailer:
  "validByMagic ''image/jpeg'' buf \<longleftrightarrow>
     take 2 buf = [0xff, 0xd8] \<and> drop (length buf - 2) buf = [0xff, 0xd9]"
  unfolding validByMagic_def isJpeg_def take2 last2
  using jpeg_short [of buf] by auto

text \<open>
  Claim C7. A payload declared as \<^verbatim>\<open>image/png\<close> passes the sniffer exactly when its
  first eight bytes are 89 50 4E 47 0D 0A 1A 0A: whatever bytes follow the signature,
  the payload is accepted.
\<close>

theorem png_trailing_bytes:
  "validByMagic ''image/png'' (pngSignature @ trailing) \<and>
   (validByMagic ''image/png'' buf \<longleftrightarrow> take 8 buf = pngSignature)"
proof
  show "validByMagic ''image/png'' (pngSignature @ trailing)"
    by (simp add: validByMagic_def isPng_append)
  show "validByMagic ''image/png'' buf \<longleftrightarrow> take 8 buf = pngSignature"
    by (simp add: validByMagic_def isPng_take8)
qed

section \<open>The upload transaction\<close>

text \<open>What the handler does with a request that has passed every check.\<close>

lemma upload_image_validated:
  assumes "userId ctx = Some uid" "uid \<noteq> []" "contentType req = Some ct"
    "ct = ''image/png'' \<or> ct = ''image/jpeg'' \<or> ct = ''image/gif'' \<or> ct = ''image/webp''"
    "body req = Buf buf" "buf \<noteq> []" "validByMagic ct buf"
  shows "upload_image env ctx req redis =
    (let mtype = (if ct = ''image/gif'' then MediaGif else MediaImage); url = dataUrl ct buf in
     case mediaUpload env mtype url of
       None \<Rightarrow> (uploadFailed, [MediaUpload mtype url], redis)
     | Some asset \<Rightarrow>
         let field = assetMediaUrl asset;
             val = stringifyAsset (assetData mtype asset (now env));
             calls = [MediaUpload mtype url, HSet uid field val]
         in if hSetThrows env then (uploadFailed, calls, redis)
            else ((200, Payload \<lparr>mimeType = ct, bytes = length buf,
                                 fileName = (if truthyString (headerValue (xFileName req))
                                             then headerValue (xFileName req) else None)\<rparr>),
                  calls, hSet redis uid field val))"
  using assms by (auto simp: upload_image_def Let_def split: option.splits)

text \<open>A 200 is answered only at the end of that path.\<close>

lemma upload_image_200:
  assumes "fst (fst (upload_image env ctx req redis)) = 200"
  shows "\<exists>uid ct buf asset. userId ctx = Some uid \<and> uid \<noteq> [] \<and> contentType req = Some ct \<and>
     (ct = ''image/png'' \<or> ct = ''image/jpeg'' \<or> ct = ''image/gif'' \<or> ct = ''image/webp'') \<and>
     body req = Buf buf \<and> buf \<noteq> [] \<and> validByMagic ct buf \<and>
     mediaUpload env (if ct = ''image/gif'' then MediaGif else MediaImage) (dataUrl ct buf) = Some asset \<and>
     \<not> hSetThrows env"
proof -
  from assms have auth: "truthyString (userId ctx)"
    by (auto simp: upload_image_def split: if_splits)
  then obtain uid where uid: "userId ctx = Some uid" "uid \<noteq> []"
    by (cases "userId ctx") auto
  from assms auth obtain ct where ct: "contentType req = Some ct"
    "ct = ''image/png'' \<or> ct = ''image/jpeg'' \<or> ct = ''image/gif'' \<or> ct = ''image/webp''"
    by (cases "contentType req") (auto simp: upload_image_def Let_def split: if_splits)
  from assms uid ct obtain buf where buf: "body req = Buf buf" "buf \<noteq> []" "validByMagic ct buf"
    by (cases "body req") (auto simp: upload_image_def Let_def split: if_splits)
  note v = upload_image_validated [OF uid ct buf, of env redis]
  from assms obtain asset where
    "mediaUpload env (if ct = ''image/gif'' then MediaGif else MediaImage) (dataUrl ct buf) = Some asset"
    "\<not> hSetThrows env"
    unfolding v by (auto simp: Let_def uploadFailed_def split: option.splits if_splits)
  with uid ct buf show ?thesis by blast
qed

text \<open>
  Claim C3. Let the payload carry the magic bytes that the specification lists for
  format \<open>f\<close> (it then carries those of no other format) and let an authenticated
  caller declare the type of format \<open>g\<close>. If \<open>g\<close> is \<open>f\<close> the upload is accepted: the
  sniffer passes, the media store is called, the answer is never 415, and it is 200 when
  the media store and the registry write succeed. If \<open>g\<close> is one of the other three the
  upload is rejected with 415 and no call is made. So of the 16 combinations the 4
  matching ones are accepted and the 12 others rejected.
\<close>

theorem sniffer_matrix:
  assumes "carriesMagic f buf" and "truthyString (userId ctx)"
    and "contentType req = Some (mime g)" and "body req = Buf buf"
  shows "(g = f \<longrightarrow>
            validByMagic (mime g) buf \<and>
            fst (fst (upload_image env ctx req redis)) \<noteq> 415 \<and>
            (\<exists>rest. fst (snd (upload_image env ctx req redis)) =
               MediaUpload (if g = GIF then MediaGif else MediaImage) (dataUrl (mime g) buf) # rest) \<and>
            (mediaUpload env (if g = GIF then MediaGif else MediaImage) (dataUrl (mime g) buf) \<noteq> None \<and>
               \<not> hSetThrows env \<longrightarrow> fst (fst (upload_image env ctx req redis)) = 200)) \<and>
         (g \<noteq> f \<longrightarrow>
            \<not> validByMagic (mime g) buf \<and>
            upload_image env ctx req redis = ((415, Failure ''Invalid image format''), [], redis))"
proof (cases "g = f")
  case True
  note magic = assms(1)
  from assms(2) obtain uid where uid: "userId ctx = Some uid" "uid \<noteq> []"
    by (cases "userId ctx") auto
  have ct: "mime g = ''image/png'' \<or> mime g = ''image/jpeg'' \<or>
      mime g = ''image/gif'' \<or> mime g = ''image/webp''"
    by (cases g) simp_all
  have gif: "(if mime g = ''image/gif'' then MediaGif else MediaImage) =
      (if g = GIF then MediaGif else MediaImage)"
    by (cases g) simp_all
  have valid: "validByMagic (mime g) buf"
    using magic True by (simp add: validByMagic_mime)
  note v = upload_image_validated
    [OF uid assms(3) ct assms(4) magic_nonempty [OF magic] valid, of env redis]
  show ?thesis using True valid
    unfolding v gif by (auto simp: Let_def uploadFailed_def split: option.splits)
next
  case False
  note magic = assms(1)
  with False have invalid: "\<not> validByMagic (mime g) buf"
    using magic_exclusive [of f buf g] by (auto simp: validByMagic_mime)
  from assms(2) obtain uid where uid: "userId ctx = Some uid" "uid \<noteq> []"
    by (cases "userId ctx") auto
  have "upload_image env ctx req redis = ((415, Failure ''Invalid image format''), [], redis)"
    using uid assms(3,4) invalid magic_nonempty [OF magic] allowed_mime [of g]
    by (simp add: upload_image_def Let_def)
  with False invalid show ?thesis by simp
qed

theorem sniffer_matrix_witness:
  "fst (fst (upload_image sampleEnv alice (declared PNG samplePng) noEntries)) = 200 \<and>
   upload_image sampleEnv alice (declared JPEG samplePng) noEntries =
     ((415, Failure ''Invalid image format''), [], noEntries) \<and>
   upload_image sampleEnv alice (declared GIF samplePng) noEntries =
     ((415, Failure ''Invalid image format''), [], noEntries) \<and>
   upload_image sampleEnv alice (declared WEBP samplePng) noEntries =
     ((415, Failure ''Invalid image format''), [], noEntries) \<and>
   upload_image sampleEnv alice (declared PNG sampleJpeg) noEntries =
     ((415, Failure ''Invalid image format''), [], noEntries) \<and>
   fst (fst (upload_image sampleEnv alice (declared JPEG sampleJpeg) noEntries)) = 200 \<and>
   upload_image sampleEnv alice (declared GIF sampleJpeg) noEntries =
     ((415, Failure ''Invalid image format''), [], noEntries) \<and>
   upload_image sampleEnv alice (declared WEBP sampleJpeg) noEntries =
     ((415, Failure ''Invalid image format''), [], noEntries) \<and>
   upload_image sampleEnv alice (declared PNG sampleGif) noEntries =
     ((415, Failure ''Invalid image format''), [], noEntries) \<and>
   upload_image sampleEnv alice (declared JPEG sampleGif) noEntries =
     ((415, Failure ''Invalid image format''), [], noEntries) \<and>
   fst (fst (upload_image sampleEnv alice (declared GIF sampleGif) noEntries)) = 200 \<and>
   upload_image sampleEnv alice (declared WEBP sampleGif) noEntries =
     ((415, Failure ''Invalid image format''), [], noEntries) \<and>
   upload_image sampleEnv alice (declared PNG sampleWebp) noEntries =
     ((415, Failure ''Invalid image format''), [], noEntries) \<and>
   upload_image sampleEnv alice (declared JPEG sampleWebp) noEntries =
     ((415, Failure ''Invalid image format''), [], noEntries) \<and>
   upload_image sampleEnv alice (declared GIF sampleWebp) noEntries =
     ((415, Failure ''Invalid image format''), [], noEntries) \<and>
   fst (fst (upload_image sampleEnv alice (declared WEBP sampleWebp) noEntries)) = 200"
proof -
  have m: "carriesMagic PNG samplePng" "carriesMagic JPEG sampleJpeg"
    "carriesMagic GIF sampleGif" "carriesMagic WEBP sampleWebp"
    by (simp_all add: samplePng_def pngSignature_def sampleJpeg_def sampleGif_def sampleWebp_def)
  have a: "truthyString (userId alice)" by (simp add: alice_def)
  have c: "contentType (declared g buf) = Some (mime g)" for g buf
    by (simp add: declared_def)
  have b: "body (declared g buf) = Buf buf" for g buf
    by (simp add: declared_def)
  have e: "mediaUpload sampleEnv t u \<noteq> None" "\<not> hSetThrows sampleEnv" for t u
    by (simp_all add: sampleEnv_def mediaStoreReturns_def)
  show ?thesis
    using sniffer_matrix [OF m(1) a c b, of PNG sampleEnv noEntries]
      sniffer_matrix [OF m(1) a c b, of JPEG sampleEnv noEntries]
      sniffer_matrix [OF m(1) a c b, of GIF sampleEnv noEntries]
      sniffer_matrix [OF m(1) a c b, of WEBP sampleEnv noEntries]
      sniffer_matrix [OF m(2) a c b, of PNG sampleEnv noEntries]
      sniffer_matrix [OF m(2) a c b, of JPEG sampleEnv noEntries]
      sniffer_matrix [OF m(2) a c b, of GIF sampleEnv noEntries]
      sniffer_matrix [OF m(2) a c b, of WEBP sampleEnv noEntries]
      sniffer_matrix [OF m(3) a c b, of PNG sampleEnv noEntries]
      sniffer_matrix [OF m(3) a c b, of JPEG sampleEnv noEntries]
      sniffer_matrix [OF m(3) a c b, of GIF sampleEnv noEntries]
      sniffer_matrix [OF m(3) a c b, of WEBP sampleEnv noEntries]
      sniffer_matrix [OF m(4) a c b, of PNG sampleEnv noEntries]
      sniffer_matrix [OF m(4) a c b, of JPEG sampleEnv noEntries]
      sniffer_matrix [OF m(4) a c b, of GIF sampleEnv noEntries]
      sniffer_matrix [OF m(4) a c b, of WEBP sampleEnv noEntries]
    by (simp add: e)
qed

text \<open>
  Claim C2, as stated: a zero-length body of an authenticated caller is answered 400
  whatever type is declared. The declared type is tested first, so outside the four
  allowed types the answer is 415.
\<close>

theorem empty_body_counterexample:
  "fst (upload_image sampleEnv alice
          \<lparr>contentType = Some ''image/bmp'', xFileName = Absent, body = Buf []\<rparr> noEntries) =
     (415, Failure ''Unsupported Content-Type'') \<and>
   fst (upload_image sampleEnv alice
          \<lparr>contentType = None, xFileName = Absent, body = NoBody\<rparr> noEntries) =
     (415, Failure ''Unsupported Content-Type'')"
  by (simp add: upload_image_def alice_def)

text \<open>
  Claim C2, amended. For an authenticated caller and a body that is missing, is no
  buffer or has length zero, the answer is 400 when the declared type is one of the four
  allowed MIME strings and 415 otherwise; in both cases no call is made.
\<close>

theorem empty_body_response:
  assumes "truthyString (userId ctx)" and "emptyOrInvalid (body req)"
  shows "upload_image env ctx req redis =
     (if contentType req = Some ''image/png'' \<or> contentType req = Some ''image/jpeg'' \<or>
         contentType req = Some ''image/gif'' \<or> contentType req = Some ''image/webp''
      then ((400, Failure ''Empty or invalid request body''), [], redis)
      else ((415, Failure ''Unsupported Content-Type''), [], redis))"
proof -
  from assms(1) obtain uid where uid: "userId ctx = Some uid" "uid \<noteq> []"
    by (cases "userId ctx") auto
  show ?thesis
    using uid assms(2)
    by (cases "body req") (auto simp: upload_image_def Let_def)
qed

theorem empty_body_response_witness:
  "truthyString (userId alice) \<and> emptyOrInvalid (Buf []) \<and>
   upload_image sampleEnv alice (pngRequest\<lparr>body := Buf []\<rparr>) noEntries =
     ((400, Failure ''Empty or invalid request body''), [], noEntries)"
  using empty_body_response [of alice "pngRequest\<lparr>body := Buf []\<rparr>" sampleEnv noEntries]
  by (simp add: alice_def pngRequest_def)



text \<open>The sample uploads, evaluated.\<close>

lemma sample_upload:
  "upload_image sampleEnv alice pngRequest redis =
     ((200, Payload \<lparr>mimeType = ''image/png'', bytes = 10, fileName = Some ''cat.png''\<rparr>),
      [MediaUpload MediaImage (dataUrl ''image/png'' samplePng),
       HSet ''t2_alice'' ''https://i.redd.it/a1.png'' (stringifyAsset firstRecord)],
      hSet redis ''t2_alice'' ''https://i.redd.it/a1.png'' (stringifyAsset firstRecord))"
  by (simp add: upload_image_def sampleEnv_def alice_def pngRequest_def samplePng_def
      pngSignature_def validByMagic_def isPng_def mediaStoreReturns_def
      assetData_def firstRecord_def Let_def)

lemma later_upload:
  "upload_image laterEnv alice gifRequest redis =
     ((200, Payload \<lparr>mimeType = ''image/gif'', bytes = 7, fileName = None\<rparr>),
      [MediaUpload MediaGif (dataUrl ''image/gif'' sampleGif),
       HSet ''t2_alice'' ''https://i.redd.it/a2.gif'' (stringifyAsset secondRecord)],
      hSet redis ''t2_alice'' ''https://i.redd.it/a2.gif'' (stringifyAsset secondRecord))"
  by (simp add: upload_image_def laterEnv_def alice_def gifRequest_def sampleGif_def
      validByMagic_def isGif_def mediaStoreReturns_def assetData_def secondRecord_def Let_def)

text \<open>
  Claim C1, as stated: when the media store has accepted the upload and the registry
  write then fails, the caller still gets a success response. The write is awaited inside
  the handler's \<^verbatim>\<open>try\<close>, so its failure reaches the \<^verbatim>\<open>catch\<close> and the answer is 400.
\<close>

theorem registry_failure_counterexample:
  "mediaUpload (sampleEnv\<lparr>hSetThrows := True\<rparr>) MediaImage (dataUrl ''image/png'' samplePng) =
     Some \<lparr>assetMediaId = ''m1'', assetMediaUrl = ''https://i.redd.it/a1.png''\<rparr> \<and>
   hSetThrows (sampleEnv\<lparr>hSetThrows := True\<rparr>) \<and>
   fst (upload_image (sampleEnv\<lparr>hSetThrows := True\<rparr>) alice pngRequest noEntries) =
     (400, Failure ''Failed to process image upload'')"
  by (simp add: upload_image_def sampleEnv_def alice_def pngRequest_def samplePng_def
      pngSignature_def validByMagic_def isPng_def mediaStoreReturns_def uploadFailed_def)

text \<open>
  Claim C1, amended. When the media store has accepted the upload and the registry write
  fails, the answer is the 400 error \<^verbatim>\<open>Failed to process image upload\<close>; the upload
  to the media store has been made and is not undone, and the store holds no record of
  it.
\<close>

theorem registry_failure_response:
  assumes "userId ctx = Some uid" and "uid \<noteq> []"
    and "contentType req = Some (mime f)" and "body req = Buf buf" and "carriesMagic f buf"
    and "mediaUpload env (if f = GIF then MediaGif else MediaImage) (dataUrl (mime f) buf) = Some asset"
    and "hSetThrows env"
  shows "upload_image env ctx req redis =
     ((400, Failure ''Failed to process image upload''),
      [MediaUpload (if f = GIF then MediaGif else MediaImage) (dataUrl (mime f) buf),
       HSet uid (assetMediaUrl asset)
         (stringifyAsset (assetData (if f = GIF then MediaGif else MediaImage) asset (now env)))],
      redis)"
proof -
  have ct: "mime f = ''image/png'' \<or> mime f = ''image/jpeg'' \<or>
      mime f = ''image/gif'' \<or> mime f = ''image/webp''"
    by (cases f) simp_all
  have gif: "(if mime f = ''image/gif'' then MediaGif else MediaImage) = (if f = GIF then MediaGif else MediaImage)"
    by (cases f) simp_all
  have valid: "validByMagic (mime f) buf"
    using assms(5) by (simp add: validByMagic_mime)
  note v = upload_image_validated
    [OF assms(1,2,3) ct assms(4) magic_nonempty [OF assms(5)] valid, of env redis]
  show ?thesis
    unfolding v gif using assms(6,7) by (simp add: Let_def uploadFailed_def)
qed

theorem registry_failure_response_witness:
  "userId alice = Some ''t2_alice'' \<and> carriesMagic PNG samplePng \<and>
   hSetThrows (sampleEnv\<lparr>hSetThrows := True\<rparr>) \<and>
   upload_image (sampleEnv\<lparr>hSetThrows := True\<rparr>) alice pngRequest noEntries =
     ((400, Failure ''Failed to process image upload''),
      [MediaUpload MediaImage (dataUrl ''image/png'' samplePng),
       HSet ''t2_alice'' ''https://i.redd.it/a1.png''
         (stringifyAsset (assetData MediaImage
            \<lparr>assetMediaId = ''m1'', assetMediaUrl = ''https://i.redd.it/a1.png''\<rparr>
            ''2024-05-01T10:00:00.000Z''))],
      noEntries)"
  using registry_failure_response [of alice "''t2_alice''" pngRequest PNG samplePng
      "sampleEnv\<lparr>hSetThrows := True\<rparr>"
      "\<lparr>assetMediaId = ''m1'', assetMediaUrl = ''https://i.redd.it/a1.png''\<rparr>" noEntries]
  by (simp add: sampleEnv_def alice_def pngRequest_def samplePng_def pngSignature_def
      isPng_def mediaStoreReturns_def)



text \<open>
  Claim C10, as stated: when the \<^verbatim>\<open>X-File-Name\<close> header appears several times, only
  its first value is echoed. The handler takes the first element of an array only; the
  repeated header reaches it as one joined string, which is echoed whole.
\<close>

theorem repeated_header_counterexample:
  "snd (fst (upload_image sampleEnv alice
               (pngRequest\<lparr>xFileName := received [''a.png'', ''b.png'']\<rparr>) noEntries)) =
     Payload \<lparr>mimeType = ''image/png'', bytes = 10, fileName = Some ''a.png, b.png''\<rparr>"
  by (simp add: upload_image_def sampleEnv_def alice_def pngRequest_def samplePng_def
      pngSignature_def validByMagic_def isPng_def mediaStoreReturns_def Let_def)

text \<open>
  Claim C10, amended. A successful response carries \<^verbatim>\<open>fileName\<close> exactly when the
  value delivered for the \<^verbatim>\<open>X-File-Name\<close> header (the first element, should it be an
  array) is a non-empty string, and echoes that value unchanged; an empty value counts
  as absent. For a header that appears several times the value delivered, and echoed,
  is the string of all its values joined by a comma and a space.
\<close>

theorem fileName_received:
  assumes "fst (fst (upload_image env ctx req redis)) = 200"
  shows "\<exists>ct buf name. contentType req = Some ct \<and> body req = Buf buf \<and>
     snd (fst (upload_image env ctx req redis)) =
       Payload \<lparr>mimeType = ct, bytes = length buf, fileName = name\<rparr> \<and>
     name = (case xFileName req of
               Absent \<Rightarrow> None
             | Single s \<Rightarrow> if s = [] then None else Some s
             | Multiple [] \<Rightarrow> None
             | Multiple (s # others) \<Rightarrow> if s = [] then None else Some s) \<and>
     (\<forall>lines. xFileName req = received lines \<longrightarrow>
        name = (if joinValues lines = [] then None else Some (joinValues lines)))"
proof -
  from upload_image_200 [OF assms] obtain uid ct buf asset where
    *: "userId ctx = Some uid" "uid \<noteq> []" "contentType req = Some ct"
     "ct = ''image/png'' \<or> ct = ''image/jpeg'' \<or> ct = ''image/gif'' \<or> ct = ''image/webp''"
     "body req = Buf buf" "buf \<noteq> []" "validByMagic ct buf"
     "mediaUpload env (if ct = ''image/gif'' then MediaGif else MediaImage) (dataUrl ct buf) =
        Some asset"
     "\<not> hSetThrows env"
    by blast
  note v = upload_image_validated [OF *(1-7), of env redis]
  let ?name = "if truthyString (headerValue (xFileName req))
               then headerValue (xFileName req) else None"
  have 1: "snd (fst (upload_image env ctx req redis)) =
       Payload \<lparr>mimeType = ct, bytes = length buf, fileName = ?name\<rparr>"
    unfolding v using *(8,9) by (simp add: Let_def)
  have 2: "?name = (case xFileName req of
               Absent \<Rightarrow> None
             | Single s \<Rightarrow> if s = [] then None else Some s
             | Multiple [] \<Rightarrow> None
             | Multiple (s # others) \<Rightarrow> if s = [] then None else Some s)"
    by (cases "xFileName req" rule: headerValue.cases) simp_all
  have 3: "?name = (if joinValues lines = [] then None else Some (joinValues lines))"
    if "xFileName req = received lines" for lines
    using that by (cases lines) simp_all
  from *(3,5) 1 2 3 show ?thesis by blast
qed

theorem fileName_received_witness:
  "snd (fst (upload_image sampleEnv alice
               (pngRequest\<lparr>xFileName := received [''cat.png'']\<rparr>) noEntries)) =
     Payload \<lparr>mimeType = ''image/png'', bytes = 10, fileName = Some ''cat.png''\<rparr> \<and>
   snd (fst (upload_image sampleEnv alice
               (pngRequest\<lparr>xFileName := received [''a.png'', ''b.png'']\<rparr>) noEntries)) =
     Payload \<lparr>mimeType = ''image/png'', bytes = 10, fileName = Some ''a.png, b.png''\<rparr> \<and>
   snd (fst (upload_image sampleEnv alice
               (pngRequest\<lparr>xFileName := received [[]]\<rparr>) noEntries)) =
     Payload \<lparr>mimeType = ''image/png'', bytes = 10, fileName = None\<rparr> \<and>
   snd (fst (upload_image sampleEnv alice
               (pngRequest\<lparr>xFileName := received []\<rparr>) noEntries)) =
     Payload \<lparr>mimeType = ''image/png'', bytes = 10, fileName = None\<rparr>"
proof -
  have ok: "fst (fst (upload_image sampleEnv alice (pngRequest\<lparr>xFileName := h\<rparr>) noEntries)) = 200"
    for h
    by (simp add: upload_image_def sampleEnv_def alice_def pngRequest_def samplePng_def
      pngSignature_def validByMagic_def isPng_def mediaStoreReturns_def Let_def)
  from fileName_received [OF ok [of "received [''cat.png'']"]]
    fileName_received [OF ok [of "received [''a.png'', ''b.png'']"]]
    fileName_received [OF ok [of "received [[]]"]]
    fileName_received [OF ok [of "received []"]]
  show ?thesis by (auto simp: pngRequest_def samplePng_def pngSignature_def)
qed

section \<open>The history query\<close>

text \<open>The handler keeps exactly the surviving values.\<close>

lemma kept_survivors:
  "filter (truthy js) (map (decode js) (map snd entries)) = survivors js entries"
  by (induction entries) (auto simp: survivors_def decode_def split: option.splits)

text \<open>The sort returns a permutation, and returns whenever the comparator does.\<close>

lemma insertBy_mset: "insertBy cmp x ys = Some zs \<Longrightarrow> mset zs = add_mset x (mset ys)"
proof (induction ys arbitrary: zs)
  case Nil
  then show ?case by auto
next
  case (Cons y ys)
  then show ?case by (auto split: option.splits if_splits)
qed

lemma sortBy_mset: "sortBy cmp xs = Some ys \<Longrightarrow> mset ys = mset xs"
proof (induction xs arbitrary: ys)
  case Nil
  then show ?case by simp
next
  case (Cons x xs)
  then show ?case by (auto split: option.splits dest: insertBy_mset)
qed

lemma insertBy_total:
  "\<forall>y \<in> set ys. cmp x y \<noteq> None \<Longrightarrow> \<exists>zs. insertBy cmp x ys = Some zs"
  by (induction ys) auto

lemma sortBy_total:
  "\<forall>x \<in> set xs. \<forall>y \<in> set xs. cmp x y \<noteq> None \<Longrightarrow> \<exists>ys. sortBy cmp xs = Some ys"
proof (induction xs)
  case Nil
  then show ?case by simp
next
  case (Cons x xs)
  then obtain ys where ys: "sortBy cmp xs = Some ys" by auto
  then have "set ys = set xs" by (metis sortBy_mset set_mset_mset)
  with Cons.prems have "\<forall>y \<in> set ys. cmp x y \<noteq> None" by simp
  then obtain zs where "insertBy cmp x ys = Some zs"
    using insertBy_total [of ys cmp x] by blast
  with ys show ?case by simp
qed

lemma survivors_truthy: "a \<in> set (survivors js entries) \<Longrightarrow> truthy js a"
  by (auto simp: survivors_def split: option.splits if_splits)

lemma truthy_not_null: "truthy js a \<Longrightarrow> a \<noteq> JNull"
  by auto

lemma byDateDesc_total:
  assumes "a \<noteq> JNull" "b \<noteq> JNull"
    "toPrimitive js (dateOf a) \<noteq> None" "toPrimitive js (dateOf b) \<noteq> None"
  shows "byDateDesc js a b \<noteq> None"
  using assms by (auto simp: byDateDesc_def isLessThan_def split: option.splits Prim.splits)

lemma byDateDesc_strings:
  assumes "dateText a = Some s" "dateText b = Some t"
  shows "byDateDesc js a b = Some (if s < t then 1 else - 1)"
proof -
  from assms have "dateOf a = Some (JString s)" "dateOf b = Some (JString t)"
    by (auto simp: dateText_def split: option.splits JSON.splits)
  moreover from this have "a \<noteq> JNull" "b \<noteq> JNull" by auto
  ultimately show ?thesis by (simp add: byDateDesc_def isLessThan_def)
qed

text \<open>
  Where the comparator is the descending order of a key, the sort returns a list in
  that order.
\<close>

lemma insertBy_sorted:
  fixes key :: "'a \<Rightarrow> 'k::linorder"
  assumes "\<forall>y \<in> set ys. cmp x y = Some (if key x < key y then 1 else - 1)"
    and "sorted_wrt (\<lambda>a b. key b \<le> key a) ys"
  shows "\<exists>zs. insertBy cmp x ys = Some zs \<and> sorted_wrt (\<lambda>a b. key b \<le> key a) zs"
  using assms
proof (induction ys)
  case Nil
  then show ?case by simp
next
  case (Cons y ys)
  show ?case
  proof (cases "key x < key y")
    case True
    from Cons obtain zs where zs: "insertBy cmp x ys = Some zs"
      "sorted_wrt (\<lambda>a b. key b \<le> key a) zs" by auto
    from zs(1) have "set zs = insert x (set ys)"
      by (metis insertBy_mset set_mset_mset set_mset_add_mset_insert)
    with Cons.prems(2) True have "sorted_wrt (\<lambda>a b. key b \<le> key a) (y # zs)"
      using zs(2) by auto
    moreover from Cons.prems(1) True zs(1) have "insertBy cmp x (y # ys) = Some (y # zs)"
      by simp
    ultimately show ?thesis by simp
  next
    case False
    with Cons.prems(1) have "insertBy cmp x (y # ys) = Some (x # y # ys)" by simp
    moreover from False Cons.prems(2) have "sorted_wrt (\<lambda>a b. key b \<le> key a) (x # y # ys)"
      by auto
    ultimately show ?thesis by simp
  qed
qed

lemma sortBy_sorted:
  fixes key :: "'a \<Rightarrow> 'k::linorder"
  assumes "\<forall>x \<in> set xs. \<forall>y \<in> set xs. cmp x y = Some (if key x < key y then 1 else - 1)"
  shows "\<exists>ys. sortBy cmp xs = Some ys \<and> sorted_wrt (\<lambda>a b. key b \<le> key a) ys"
  using assms
proof (induction xs)
  case Nil
  then show ?case by simp
next
  case (Cons x xs)
  then obtain ys where ys: "sortBy cmp xs = Some ys" "sorted_wrt (\<lambda>a b. key b \<le> key a) ys"
    by auto
  then have "set ys = set xs" by (metis sortBy_mset set_mset_mset)
  with Cons.prems have "\<forall>y \<in> set ys. cmp x y = Some (if key x < key y then 1 else - 1)"
    by simp
  from insertBy_sorted [of ys cmp x key, OF this ys(2)] ys(1) show ?case by simp
qed

text \<open>What a write does to the surviving values, and what a successful upload writes.\<close>

lemma survivors_update:
  "a \<in> set (survivors js (AList.update k v al)) \<Longrightarrow>
     a \<in> set (survivors js al) \<or> parse js v = Some a"
  by (induction al) (auto simp: survivors_def split: option.splits if_splits)

lemma survivors_member:
  "(k, v) \<in> set al \<Longrightarrow> parse js v = Some a \<Longrightarrow> truthy js a \<Longrightarrow> a \<in> set (survivors js al)"
  by (induction al) (auto simp: survivors_def split: option.splits if_splits)

lemma update_member: "(k, v) \<in> set (AList.update k v al)"
  by (rule map_of_SomeD) (simp add: update_conv')

lemma update_other: "k \<noteq> k' \<Longrightarrow> (k, v) \<in> set al \<Longrightarrow> (k, v) \<in> set (AList.update k' v' al)"
  by (induction al) auto

lemma upload_image_success:
  assumes "upload_image env ctx req redis = ((200, p), [MediaUpload t u, HSet uid f v], redis')"
    and "mediaUpload env t u = Some m"
  shows "userId ctx = Some uid \<and> uid \<noteq> [] \<and> f = assetMediaUrl m \<and>
     v = stringifyAsset (assetData t m (now env)) \<and> redis' = hSet redis uid f v"
proof -
  from assms(1) have "fst (fst (upload_image env ctx req redis)) = 200" by simp
  from upload_image_200 [OF this] obtain uid' ct buf asset where
    *: "userId ctx = Some uid'" "uid' \<noteq> []" "contentType req = Some ct"
     "ct = ''image/png'' \<or> ct = ''image/jpeg'' \<or> ct = ''image/gif'' \<or> ct = ''image/webp''"
     "body req = Buf buf" "buf \<noteq> []" "validByMagic ct buf"
     "mediaUpload env (if ct = ''image/gif'' then MediaGif else MediaImage) (dataUrl ct buf) = Some asset"
     "\<not> hSetThrows env"
    by blast
  note v = upload_image_validated [OF *(1-7), of env redis]
  from assms(1) *(8,9) have
    "t = (if ct = ''image/gif'' then MediaGif else MediaImage)" "u = dataUrl ct buf" "uid = uid'"
    "f = assetMediaUrl asset"
    "v = stringifyAsset (assetData (if ct = ''image/gif'' then MediaGif else MediaImage) asset (now env))"
    "redis' = hSet redis uid' (assetMediaUrl asset)
       (stringifyAsset (assetData (if ct = ''image/gif'' then MediaGif else MediaImage) asset (now env)))"
    unfolding v by (auto simp: Let_def)
  with assms(2) *(1,2,8) show ?thesis by simp
qed

lemma assetJSON_date: "dateText (assetJSON r) = Some (date r)"
  by (simp add: assetJSON_def dateText_def)

lemma assetJSON_truthy: "truthy js (assetJSON r)"
  by (simp add: assetJSON_def)

text \<open>
  A successful upload keeps every kept value dated, so a hash that only uploads have
  written has the property that the ordering claim asks of the earlier contents.
\<close>

lemma upload_keeps_dated:
  assumes "upload_image env ctx req redis = ((200, p), [MediaUpload t u, HSet uid f v], redis')"
    and "mediaUpload env t u = Some m"
    and "parse js v = Some (assetJSON (assetData t m (now env)))"
    and "datedEntries js (redis uid)"
  shows "datedEntries js (redis' uid)"
proof -
  from upload_image_success [OF assms(1,2)] have "redis' uid = AList.update f v (redis uid)"
    by (simp add: hSet_def)
  moreover have "dateText a \<noteq> None" if "a \<in> set (survivors js (AList.update f v (redis uid)))" for a
    using survivors_update [OF that] assms(3,4)
    by (auto simp: datedEntries_def list_all_iff assetJSON_date)
  ultimately show ?thesis by (simp add: datedEntries_def list_all_iff)
qed

text \<open>
  Claim C5. A request to either endpoint without a caller identity (undefined, or the
  empty string) is answered 401, and the handler calls neither the media store nor the
  key-value store; the store is unchanged.
\<close>

theorem unauthenticated_rejected:
  assumes "\<not> truthyString (userId ctx)"
  shows "upload_image env ctx req redis = ((401, Failure ''Unauthorized''), [], redis) \<and>
         my_images js env ctx redis = ((401, Failure ''Unauthorized''), [])"
  using assms
  by (cases "userId ctx") (simp_all add: upload_image_def my_images_def)

theorem unauthenticated_rejected_witness:
  "upload_image sampleEnv anonymous pngRequest twoUploads =
     ((401, Failure ''Unauthorized''), [], twoUploads) \<and>
   my_images sampleJS sampleEnv anonymous twoUploads = ((401, Failure ''Unauthorized''), [])"
  using unauthenticated_rejected [of anonymous sampleEnv pngRequest twoUploads sampleJS]
  by (simp add: anonymous_def)

text \<open>
  Claim C8, as stated: no single stored value makes the history query fail. A value
  that parses is kept without any check of its shape; when the \<^verbatim>\<open>date\<close> of a kept value
  is an object with an own property \<^verbatim>\<open>toString\<close>, the comparison in the sort throws a
  TypeError and the whole query is answered 400, although the other records are sound.
\<close>

theorem corrupt_entry_counterexample:
  "parse sampleJS badText = Some (JObject [(''date'', JObject [(''toString'', JNumber 1)])]) \<and>
   my_images sampleJS sampleEnv alice poisoned =
     ((400, Failure ''Failed to fetch uploads''), [HGetAll ''t2_alice''])"
  by code_simp

text \<open>
  Claim C8, amended. For an authenticated caller whose hash can be read, every stored
  value that does not parse, or parses to a falsy value, is dropped without an error,
  and every other value is kept as parsed; the answer is 200 with exactly the kept
  values whenever the date of each of them converts to a primitive, and for a caller
  with no stored field it is 200 with the empty list.
\<close>

theorem history_drops_undecodable:
  assumes "userId ctx = Some uid" and "uid \<noteq> []" and "\<not> hGetAllThrows env"
    and "list_all (comparable js) (survivors js (redis uid))"
  shows "(\<exists>assets. my_images js env ctx redis = ((200, Payload assets), [HGetAll uid]) \<and>
            mset assets = mset (survivors js (redis uid))) \<and>
         (redis uid = [] \<longrightarrow> my_images js env ctx redis = ((200, Payload []), [HGetAll uid]))"
proof -
  let ?kept = "survivors js (redis uid)"
  have "\<forall>x \<in> set ?kept. \<forall>y \<in> set ?kept. byDateDesc js x y \<noteq> None"
  proof (intro ballI)
    fix x y assume xy: "x \<in> set ?kept" "y \<in> set ?kept"
    then have "x \<noteq> JNull" "y \<noteq> JNull"
      using survivors_truthy truthy_not_null by blast+
    moreover from xy assms(4) have
      "toPrimitive js (dateOf x) \<noteq> None" "toPrimitive js (dateOf y) \<noteq> None"
      by (simp_all add: list_all_iff comparable_def)
    ultimately show "byDateDesc js x y \<noteq> None" by (rule byDateDesc_total)
  qed
  from sortBy_total [OF this] obtain ys where ys: "sortBy (byDateDesc js) ?kept = Some ys"
    by blast
  have result: "my_images js env ctx redis = ((200, Payload ys), [HGetAll uid])"
    unfolding my_images_def Let_def kept_survivors
    using assms(1-3) ys by simp
  moreover have "mset ys = mset ?kept" using ys by (rule sortBy_mset)
  moreover have "ys = []" if "redis uid = []"
    using that ys by (simp add: survivors_def)
  ultimately show ?thesis by auto
qed

theorem history_drops_undecodable_witness:
  "(\<exists>assets. my_images sampleJS sampleEnv alice withJunk =
                ((200, Payload assets), [HGetAll ''t2_alice'']) \<and>
             mset assets = mset [assetJSON firstRecord, assetJSON secondRecord, JObject []]) \<and>
   my_images sampleJS sampleEnv alice noEntries = ((200, Payload []), [HGetAll ''t2_alice''])"
proof -
  have kept: "survivors sampleJS (withJunk ''t2_alice'') =
      [assetJSON firstRecord, assetJSON secondRecord, JObject []]"
    by code_simp
  have ok: "list_all (comparable sampleJS) (survivors sampleJS (withJunk ''t2_alice''))"
    by code_simp
  have none: "list_all (comparable sampleJS) (survivors sampleJS (noEntries ''t2_alice''))"
    by code_simp
  have u: "userId alice = Some ''t2_alice''" "''t2_alice'' \<noteq> []" "\<not> hGetAllThrows sampleEnv"
    by (simp_all add: alice_def sampleEnv_def)
  from history_drops_undecodable [of alice "''t2_alice''" sampleEnv sampleJS withJunk, OF u ok]
    history_drops_undecodable [of alice "''t2_alice''" sampleEnv sampleJS noEntries, OF u none]
  show ?thesis by (simp add: kept noEntries_def)
qed

text \<open>
  Claim C4. Let the same caller upload twice with success, the first record dated
  \<open>now env1\<close> and the second \<open>now env2\<close>, the first date before the second in the
  order of the stored ISO-8601 texts. Let the media store have given the two uploads
  different URLs, let \<^verbatim>\<open>JSON.parse\<close> give back the two records written, and let every
  value kept from the caller's earlier hash have a string date. Then the history query
  answers 200 with a list, sorted by date descending, in which the second record stands
  before the first.
\<close>

theorem newest_first:
  assumes up1: "upload_image env1 ctx req1 redis0 =
                  ((200, p1), [MediaUpload t1 u1, HSet uid f1 v1], redis1)"
    and m1: "mediaUpload env1 t1 u1 = Some m1"
    and up2: "upload_image env2 ctx req2 redis1 =
                  ((200, p2), [MediaUpload t2 u2, HSet uid f2 v2], redis2)"
    and m2: "mediaUpload env2 t2 u2 = Some m2"
    and urls: "assetMediaUrl m1 \<noteq> assetMediaUrl m2"
    and times: "now env1 < now env2"
    and back1: "parse js v1 = Some (assetJSON (assetData t1 m1 (now env1)))"
    and back2: "parse js v2 = Some (assetJSON (assetData t2 m2 (now env2)))"
    and prior: "datedEntries js (redis0 uid)"
    and read: "\<not> hGetAllThrows env3"
  shows "\<exists>before mid after.
     my_images js env3 ctx redis2 =
       ((200, Payload (before @ assetJSON (assetData t2 m2 (now env2)) # mid @
                       assetJSON (assetData t1 m1 (now env1)) # after)),
        [HGetAll uid]) \<and>
     sorted_wrt notOlder (before @ assetJSON (assetData t2 m2 (now env2)) # mid @
                       assetJSON (assetData t1 m1 (now env1)) # after)"
proof -
  let ?r1 = "assetData t1 m1 (now env1)" and ?r2 = "assetData t2 m2 (now env2)"
  let ?j1 = "assetJSON ?r1 :: 'a JSON" and ?j2 = "assetJSON ?r2 :: 'a JSON"
  let ?key = "\<lambda>a :: 'a JSON. the (dateText a)"
  from upload_image_success [OF up1 m1] have
    s1: "userId ctx = Some uid" "uid \<noteq> []" "f1 = assetMediaUrl m1" "redis1 = hSet redis0 uid f1 v1"
    by simp_all
  from upload_image_success [OF up2 m2] have
    s2: "f2 = assetMediaUrl m2" "redis2 = hSet redis1 uid f2 v2"
    by simp_all
  define entries where "entries = redis2 uid"
  have entries: "entries = AList.update f2 v2 (AList.update f1 v1 (redis0 uid))"
    by (simp add: entries_def s1 s2 hSet_def)
  have diff: "f1 \<noteq> f2" using urls s1 s2 by simp
  have in1: "?j1 \<in> set (survivors js entries)"
    unfolding entries
    by (rule survivors_member [OF update_other [OF diff update_member] back1 assetJSON_truthy])
  have in2: "?j2 \<in> set (survivors js entries)"
    unfolding entries
    by (rule survivors_member [OF update_member back2 assetJSON_truthy])
  have dated: "dateText a \<noteq> None" if "a \<in> set (survivors js entries)" for a
  proof -
    from that have "a \<in> set (survivors js (redis0 uid)) \<or> a = ?j1 \<or> a = ?j2"
      unfolding entries using back1 back2 by (auto dest!: survivors_update)
    then show ?thesis
      using prior by (auto simp: datedEntries_def list_all_iff assetJSON_date)
  qed
  have cmp: "\<forall>x \<in> set (survivors js entries). \<forall>y \<in> set (survivors js entries).
      byDateDesc js x y = Some (if ?key x < ?key y then 1 else - 1)"
  proof (intro ballI)
    fix x y assume "x \<in> set (survivors js entries)" "y \<in> set (survivors js entries)"
    then obtain s t where "dateText x = Some s" "dateText y = Some t"
      using dated by blast
    then show "byDateDesc js x y = Some (if ?key x < ?key y then 1 else - 1)"
      using byDateDesc_strings [of x s y t js] by simp
  qed
  from sortBy_sorted [of "survivors js entries" "byDateDesc js" ?key, OF cmp]
  obtain ys where ys: "sortBy (byDateDesc js) (survivors js entries) = Some ys"
    "sorted_wrt (\<lambda>a b. ?key b \<le> ?key a) ys" by blast
  have set_ys: "set ys = set (survivors js entries)"
    using ys(1) by (metis sortBy_mset set_mset_mset)
  have result: "my_images js env3 ctx redis2 = ((200, Payload ys), [HGetAll uid])"
    unfolding my_images_def Let_def kept_survivors
    using s1(1,2) read ys(1) by (simp add: entries_def)
  have sorted: "sorted_wrt notOlder ys"
  proof (rule sorted_wrt_mono_rel [OF _ ys(2)])
    fix a b assume "a \<in> set ys" "b \<in> set ys" "?key b \<le> ?key a"
    moreover from this obtain s t where "dateText a = Some s" "dateText b = Some t"
      using dated set_ys by blast
    ultimately show "notOlder a b" by (simp add: notOlder_def)
  qed
  have older: "?key ?j1 < ?key ?j2"
    using times by (simp add: assetJSON_date assetData_def)
  from in1 set_ys have "?j1 \<in> set ys" by simp
  then obtain us vs where split1: "ys = us @ ?j1 # vs"
    by (meson split_list)
  have "?j2 \<in> set us"
  proof (rule ccontr)
    assume "?j2 \<notin> set us"
    moreover from in2 set_ys split1 have "?j2 \<in> set us \<or> ?j2 = ?j1 \<or> ?j2 \<in> set vs" by auto
    moreover have "?j2 \<noteq> ?j1" using older by auto
    ultimately have "?j2 \<in> set vs" by blast
    with ys(2) split1 have "?key ?j2 \<le> ?key ?j1"
      by (simp add: sorted_wrt_append)
    with older show False by simp
  qed
  then obtain before mid where "us = before @ ?j2 # mid" by (meson split_list)
  with split1 have "ys = before @ ?j2 # mid @ ?j1 # vs" by simp
  with result sorted show ?thesis by metis
qed

theorem newest_first_witness:
  "\<exists>before mid after.
     my_images sampleJS sampleEnv alice twoUploads =
       ((200, Payload (before @ assetJSON secondRecord # mid @ assetJSON firstRecord # after)),
        [HGetAll ''t2_alice''])"
proof -
  let ?m1 = "\<lparr>assetMediaId = ''m1'', assetMediaUrl = ''https://i.redd.it/a1.png''\<rparr>"
  let ?m2 = "\<lparr>assetMediaId = ''m2'', assetMediaUrl = ''https://i.redd.it/a2.gif''\<rparr>"
  note up1 = sample_upload [of noEntries]
  note up2 = later_upload [of "hSet noEntries ''t2_alice'' ''https://i.redd.it/a1.png''
      (stringifyAsset firstRecord)"]
  have m1: "mediaUpload sampleEnv MediaImage (dataUrl ''image/png'' samplePng) = Some ?m1"
    by (simp add: sampleEnv_def mediaStoreReturns_def)
  have m2: "mediaUpload laterEnv MediaGif (dataUrl ''image/gif'' sampleGif) = Some ?m2"
    by (simp add: laterEnv_def mediaStoreReturns_def)
  have urls: "assetMediaUrl ?m1 \<noteq> assetMediaUrl ?m2" by simp
  have times: "now sampleEnv < now laterEnv" by (simp add: sampleEnv_def laterEnv_def)
  have r1: "assetData MediaImage ?m1 (now sampleEnv) = firstRecord"
    by (simp add: assetData_def firstRecord_def sampleEnv_def)
  have r2: "assetData MediaGif ?m2 (now laterEnv) = secondRecord"
    by (simp add: assetData_def secondRecord_def laterEnv_def)
  have back1: "parse sampleJS (stringifyAsset firstRecord) =
      Some (assetJSON (assetData MediaImage ?m1 (now sampleEnv)))"
    unfolding r1 by code_simp
  have back2: "parse sampleJS (stringifyAsset secondRecord) =
      Some (assetJSON (assetData MediaGif ?m2 (now laterEnv)))"
    unfolding r2 by code_simp
  have prior: "datedEntries sampleJS (noEntries ''t2_alice'')" by code_simp
  have read: "\<not> hGetAllThrows sampleEnv" by (simp add: sampleEnv_def)
  from newest_first [OF up1 m1 up2 m2 urls times back1 back2 prior read]
  show ?thesis unfolding r1 r2 twoUploads_def by blast
qed

end
